theory Spec2Isabelle
  imports Main "HOL-Library.FSet"
begin

section \<open>The command-line framework of \<^verbatim>\<open>blocks.py\<close>\<close>

text \<open>
  A shallow embedding of \<^verbatim>\<open>src/blocks.py\<close>: the \<^verbatim>\<open>Command\<close> decorator with
  its class-level numbering state, the \<^verbatim>\<open>Commandlet\<close> wrapper with its arity check,
  the \<^verbatim>\<open>Mode\<close> dispatch loop and the \<^verbatim>\<open>ArgumentParser\<close> tokenizer.

  Conventions. A Python \<^verbatim>\<open>str\<close> is a \<^typ>\<open>string\<close>; one \<^typ>\<open>char\<close> stands for one
  character with code point below 256. Python integers are \<^typ>\<open>int\<close>. Mutable state
  (class attributes, instance attributes, standard output) is passed explicitly and
  returned updated. A raised exception is the \<open>Inl\<close> of a sum.
\<close>

subsection \<open>Exceptions\<close>

text \<open>
  \<^verbatim>\<open>IncorrectCommand\<close> and \<^verbatim>\<open>IncorrectArguments\<close> are the two subclasses of
  \<^verbatim>\<open>CustomException\<close>, each carrying \<^verbatim>\<open>msg\<close>. The others are Python's own:
  \<^verbatim>\<open>StopIteration\<close> (raised by \<^verbatim>\<open>exit\<close>), \<^verbatim>\<open>TypeError\<close> (a call whose arguments
  do not bind, or \<^verbatim>\<open>None in 'abc'\<close>), \<^verbatim>\<open>EOFError\<close> (\<^verbatim>\<open>input()\<close> at the end of the
  input) and anything else a command body raises.
\<close>

datatype exn =
    IncorrectCommand string
  | IncorrectArguments string
  | StopIteration
  | TypeError
  | EOFError
  | IndexError
  | OtherException string

subsection \<open>\<^verbatim>\<open>Command\<close>: the decorator and its numbering\<close>

text \<open>
  The class attributes \<^verbatim>\<open>Command.number_free\<close> and \<^verbatim>\<open>Command.number_used\<close>
  (lines 11-12), initially \<^verbatim>\<open>0\<close> and \<^verbatim>\<open>set()\<close>.
\<close>

record Command_cls =
  number_free :: int
  number_used :: "int fset"

definition Command_cls_init :: Command_cls where
  "Command_cls_init = \<lparr>number_free = 0, number_used = {||}\<rparr>"

text \<open>
  The loop of \<^verbatim>\<open>set_number\<close> (lines 35-39):
  \<^verbatim>\<open>while True: if num in cls.number_used: num += 1 else: break\<close>.
  It ends because the set is finite: each round leaves fewer members at or above
  \<open>num\<close>.
\<close>

function probe :: "int fset \<Rightarrow> int \<Rightarrow> int" where
  "probe used num = (if num |\<in>| used then probe used (num + 1) else num)"
  by pat_completeness auto
termination
proof (relation "measure (\<lambda>(used, num). card {k \<in> fset used. num \<le> k})")
  show "wf (measure (\<lambda>(used, num). card {k \<in> fset used. num \<le> k}))"
    by simp
next
  fix used :: "int fset" and num :: int
  assume mem: "num |\<in>| used"
  have "{k \<in> fset used. num + 1 \<le> k} \<subset> {k \<in> fset used. num \<le> k}"
  proof
    show "{k \<in> fset used. num + 1 \<le> k} \<subseteq> {k \<in> fset used. num \<le> k}"
      by auto
    have "num \<in> {k \<in> fset used. num \<le> k}" "num \<notin> {k \<in> fset used. num + 1 \<le> k}"
      using mem by simp_all
    then show "{k \<in> fset used. num + 1 \<le> k} \<noteq> {k \<in> fset used. num \<le> k}"
      by blast
  qed
  moreover have "finite {k \<in> fset used. num \<le> k}"
    by simp
  ultimately have "card {k \<in> fset used. num + 1 \<le> k} < card {k \<in> fset used. num \<le> k}"
    by (rule psubset_card_mono[rotated])
  then show "((used, num + 1), (used, num)) \<in> measure (\<lambda>(used, num). card {k \<in> fset used. num \<le> k})"
    by simp
qed

declare probe.simps [simp del]

text \<open>
  \<^verbatim>\<open>Command.set_number(cls, number)\<close> (lines 27-40). The argument is \<open>None\<close> or the
  value of \<^verbatim>\<open>int(number)\<close>. Only \<^verbatim>\<open>number_free\<close> is ever assigned: no statement of
  the method (or of the file) adds to \<^verbatim>\<open>number_used\<close>.
\<close>

definition set_number :: "int option \<Rightarrow> Command_cls \<Rightarrow> int \<times> Command_cls" where
  "set_number number cls =
     (let (num, cls') =
        (case number of
           None \<Rightarrow> (number_free cls, cls\<lparr>number_free := number_free cls + 1\<rparr>)
         | Some n \<Rightarrow> (n, cls))
      in (probe (number_used cls') num, cls'))"

text \<open>
  A \<^verbatim>\<open>Command\<close> instance (lines 14-17): \<^verbatim>\<open>description\<close>, \<^verbatim>\<open>command\<close> (or
  \<open>None\<close>) and the \<^verbatim>\<open>number\<close> that \<^verbatim>\<open>set_number\<close> chose.
\<close>

record Command =
  cmd_description :: string
  cmd_command :: "string option"
  cmd_number :: int

definition Command_init :: "string \<Rightarrow> string option \<Rightarrow> int option \<Rightarrow> Command_cls \<Rightarrow> Command \<times> Command_cls" where
  "Command_init description command number cls =
     (let (num, cls') = set_number number cls
      in (\<lparr>cmd_description = description, cmd_command = command, cmd_number = num\<rparr>, cls'))"

subsection \<open>Function objects\<close>

text \<open>
  What the code reads of the function it wraps: \<^verbatim>\<open>__name__\<close>, \<^verbatim>\<open>__doc__\<close>,
  \<^verbatim>\<open>__code__.co_varnames\<close> (the parameter names followed by the other local
  variables), \<^verbatim>\<open>__code__.co_argcount\<close> (the number of positional parameters, the
  receiver included), \<^verbatim>\<open>__defaults__\<close> (\<open>None\<close> or the tuple of default values) and
  \<^verbatim>\<open>__annotations__\<close>. Calling it, \<^verbatim>\<open>func(*args, **kwargs)\<close>, is \<open>fn_call\<close>: from
  the positional values, the keyword values and the state \<open>'w\<close> it may change, to a
  result or an exception and the new state. \<open>'a\<close> is the type of argument values.
\<close>

record ('a, 'w, 'r) pyfunc =
  fn_name :: string
  fn_doc :: "string option"
  co_varnames :: "string list"
  co_argcount :: nat
  fn_defaults :: "'a list option"
  fn_annotations :: "(string \<times> string) list"
  fn_call :: "'a list \<Rightarrow> (string \<times> 'a) list \<Rightarrow> 'w \<Rightarrow> (exn + 'r) \<times> 'w"

subsection \<open>\<^verbatim>\<open>Commandlet\<close>\<close>

text \<open>The class attributes \<^verbatim>\<open>command_width\<close> and \<^verbatim>\<open>arguments_width\<close> (lines 50-51).\<close>

record Commandlet_cls =
  command_width :: nat
  arguments_width :: nat

definition Commandlet_cls_init :: Commandlet_cls where
  "Commandlet_cls_init = \<lparr>command_width = 0, arguments_width = 0\<rparr>"

text \<open>The instance attributes set by \<^verbatim>\<open>Commandlet.__init__\<close>.\<close>

record ('a, 'w, 'r) Commandlet =
  description :: string
  command :: string
  number :: int
  func :: "('a, 'w, 'r) pyfunc"
  func_help :: "string option"
  arguments :: "string list"
  arguments_usage :: string
  arguments_help :: "(string \<times> string) list"
  arguments_max :: int
  arguments_min :: int

text \<open>\<^verbatim>\<open>sep.join(xs)\<close>.\<close>

fun join :: "string \<Rightarrow> string list \<Rightarrow> string" where
  "join sep [] = []"
| "join sep [x] = x"
| "join sep (x # y # ys) = x @ sep @ join sep (y # ys)"

text \<open>
  \<^verbatim>\<open>Commandlet.__init__\<close> (lines 53-81). The loop of lines 60-63 keeps the entries
  of \<^verbatim>\<open>co_varnames\<close> whose index is below \<^verbatim>\<open>co_argcount\<close>; \<^verbatim>\<open>arguments[1:]\<close> is
  \<open>drop 1\<close>. The two class-level widths only grow.
\<close>

definition Commandlet_init ::
  "string \<Rightarrow> string \<Rightarrow> int \<Rightarrow> ('a, 'w, 'r) pyfunc \<Rightarrow> Commandlet_cls
     \<Rightarrow> ('a, 'w, 'r) Commandlet \<times> Commandlet_cls" where
  "Commandlet_init descr cmd num f cls =
     (let args = map snd (filter (\<lambda>(i, arg). i < co_argcount f) (enumerate 0 (co_varnames f)));
          usage = join '' '' (map (\<lambda>arg. ''['' @ arg @ '']'') (drop 1 args));
          amax = int (length args);
          amin = (case fn_defaults f of
                    None \<Rightarrow> amax
                  | Some defaults \<Rightarrow> amax - int (length defaults));
          cls1 = (if arguments_width cls < length usage
                  then cls\<lparr>arguments_width := length usage\<rparr> else cls);
          cls2 = (if command_width cls1 < length cmd
                  then cls1\<lparr>command_width := length cmd\<rparr> else cls1)
      in (\<lparr>description = descr,
           command = cmd,
           number = num,
           func = f,
           func_help = fn_doc f,
           arguments = args,
           arguments_usage = usage,
           arguments_help = fn_annotations f,
           arguments_max = amax,
           arguments_min = amin\<rparr>, cls2))"

text \<open>\<^verbatim>\<open>Command.get_command\<close> (lines 42-46) and \<^verbatim>\<open>Command.__call__\<close> (lines 19-25).\<close>

definition get_command :: "Command \<Rightarrow> ('a, 'w, 'r) pyfunc \<Rightarrow> string" where
  "get_command self f = (case cmd_command self of None \<Rightarrow> fn_name f | Some c \<Rightarrow> c)"

definition Command_call ::
  "Command \<Rightarrow> ('a, 'w, 'r) pyfunc \<Rightarrow> Commandlet_cls \<Rightarrow> ('a, 'w, 'r) Commandlet \<times> Commandlet_cls" where
  "Command_call self f cls =
     Commandlet_init (cmd_description self) (get_command self f) (cmd_number self) f cls"

text \<open>
  The loop of lines 136-138 over \<^verbatim>\<open>kwargs.keys()\<close>, in the order of the keys: the
  first name that is not in \<^verbatim>\<open>self.arguments\<close> raises.
\<close>

fun check_kwargs :: "string list \<Rightarrow> string list \<Rightarrow> exn option" where
  "check_kwargs args [] = None"
| "check_kwargs args (name # names) =
     (if name \<notin> set args
      then Some (IncorrectArguments (''wrong keyword argument: '' @ name))
      else check_kwargs args names)"

text \<open>
  \<^verbatim>\<open>Commandlet.__call__(self, *args, **kwargs)\<close> (lines 126-140). \<open>kwargs\<close> is the
  dictionary of keyword arguments in the order given. The method's own first parameter
  is named \<^verbatim>\<open>self\<close> and is bound to the instance, so a call with a keyword
  \<^verbatim>\<open>self\<close> is refused by Python with \<^verbatim>\<open>TypeError\<close> (multiple values for argument
  'self') before the body runs; every other keyword reaches \<open>kwargs\<close>.
\<close>

definition Commandlet_call ::
  "('a, 'w, 'r) Commandlet \<Rightarrow> 'a list \<Rightarrow> (string \<times> 'a) list \<Rightarrow> 'w \<Rightarrow> (exn + 'r) \<times> 'w" where
  "Commandlet_call self args kwargs w =
     (if ''self'' \<in> set (map fst kwargs) then (Inl TypeError, w)
      else
        (let arguments_passed = int (length args) + int (length kwargs) in
         if arguments_passed > arguments_max self then
           (Inl (IncorrectArguments ''exceeded maximum number of arguments''), w)
         else if arguments_passed < arguments_min self then
           (Inl (IncorrectArguments ''not enough arguments''), w)
         else
           (case check_kwargs (Commandlet.arguments self) (map fst kwargs) of
              Some e \<Rightarrow> (Inl e, w)
            | None \<Rightarrow> fn_call (func self) args kwargs w)))"

text \<open>\<^verbatim>\<open>Commandlet.__eq__\<close> (lines 148-149).\<close>

definition Commandlet_eq :: "('a, 'w, 'r) Commandlet \<Rightarrow> ('a, 'w, 'r) Commandlet \<Rightarrow> bool" where
  "Commandlet_eq self other = (command self = command other)"

subsection \<open>\<^verbatim>\<open>ArgumentParser\<close>: the tokenizer\<close>

text \<open>
  \<^verbatim>\<open>str.strip()\<close> with no argument removes leading and trailing whitespace. Among
  the characters below 256, Python counts as whitespace the code points 9 to 13, 28 to
  32, 133 and 160.
\<close>

definition isspace :: "char \<Rightarrow> bool" where
  "isspace c =
     (let n = (of_char c :: nat)
      in (9 \<le> n \<and> n \<le> 13) \<or> (28 \<le> n \<and> n \<le> 32) \<or> n = 133 \<or> n = 160)"

definition strip :: "string \<Rightarrow> string" where
  "strip s = rev (dropWhile isspace (rev (dropWhile isspace s)))"

text \<open>
  The instance attributes set by \<^verbatim>\<open>ArgumentParser.__init__\<close> (lines 234-242).
  \<^verbatim>\<open>tokens\<close> is the string of the four delimiters: space, double quote (0x22),
  single quote (0x27) and newline (0x0A).
\<close>

record ArgumentParser =
  tokens :: string
  curr_token :: "char option"
  prev_token :: "char option"
  buffer :: string
  arguments :: "string list"
  quote :: "char option"

definition ArgumentParser_init :: ArgumentParser where
  "ArgumentParser_init =
     \<lparr>tokens = [CHR 0x20, CHR 0x22, CHR 0x27, CHR 0x0A],
      curr_token = None,
      prev_token = None,
      buffer = [],
      arguments = [],
      quote = None\<rparr>"

text \<open>\<^verbatim>\<open>change_token\<close> (lines 262-270); the logging call has no effect on the state.\<close>

definition change_token :: "char \<Rightarrow> ArgumentParser \<Rightarrow> ArgumentParser" where
  "change_token new_token self =
     self\<lparr>prev_token := curr_token self, curr_token := Some new_token\<rparr>"

text \<open>\<^verbatim>\<open>flush_buffer\<close> (lines 272-276): returns the buffer and empties it.\<close>

definition flush_buffer :: "ArgumentParser \<Rightarrow> string \<times> ArgumentParser" where
  "flush_buffer self = (buffer self, self\<lparr>buffer := []\<rparr>)"

text \<open>
  \<^verbatim>\<open>process_token\<close> (lines 278-294). \<^verbatim>\<open>self.curr_token in ' \n'\<close> is a substring
  test; for the one-character strings that \<^verbatim>\<open>curr_token\<close> holds it is membership, and
  for \<open>None\<close> it raises \<^verbatim>\<open>TypeError\<close>. \<^verbatim>\<open>self.prev_token and ...\<close> is false for
  \<open>None\<close>.
\<close>

definition process_token :: "char \<Rightarrow> ArgumentParser \<Rightarrow> exn + ArgumentParser" where
  "process_token symbol self0 =
     (let self = change_token symbol self0 in
      case curr_token self of
        None \<Rightarrow> Inl TypeError
      | Some ctok \<Rightarrow>
          if ctok \<in> set [CHR 0x20, CHR 0x0A] then
            (if (case prev_token self of
                   None \<Rightarrow> False
                 | Some ptok \<Rightarrow> ptok \<in> set [CHR 0x22, CHR 0x27]) then
               (let (data, self') = flush_buffer self
                in Inr (self'\<lparr>arguments := arguments self' @ [data]\<rparr>))
             else
               (let (data, self') = flush_buffer self
                in if data \<noteq> [] then Inr (self'\<lparr>arguments := arguments self' @ [data]\<rparr>)
                   else Inr self'))
          else if ctok \<in> set [CHR 0x22, CHR 0x27] then
            (if quote self = None then Inr (self\<lparr>quote := Some ctok\<rparr>)
             else Inr (self\<lparr>quote := None\<rparr>))
          else Inr self)"

text \<open>
  One round of the \<^verbatim>\<open>for symbol in ...\<close> loop of \<^verbatim>\<open>__call__\<close> (lines 248-256).
  \<^verbatim>\<open>if self.quote\<close> holds when \<^verbatim>\<open>quote\<close> is a (one-character) string.
\<close>

definition feed_symbol :: "char \<Rightarrow> ArgumentParser \<Rightarrow> exn + ArgumentParser" where
  "feed_symbol symbol self =
     (if quote self \<noteq> None then
        (if Some symbol = quote self then process_token symbol self
         else Inr (self\<lparr>buffer := buffer self @ [symbol]\<rparr>))
      else if symbol \<in> set (tokens self) then process_token symbol self
      else Inr (self\<lparr>buffer := buffer self @ [symbol]\<rparr>))"

text \<open>The loop itself: it stops at the first exception.\<close>

fun feed :: "string \<Rightarrow> ArgumentParser \<Rightarrow> exn + ArgumentParser" where
  "feed [] self = Inr self"
| "feed (symbol # rest) self =
     (case feed_symbol symbol self of
        Inl e \<Rightarrow> Inl e
      | Inr self' \<Rightarrow> feed rest self')"

text \<open>
  \<^verbatim>\<open>ArgumentParser.__call__\<close> (lines 244-260): the loop over the stripped string,
  the final \<^verbatim>\<open>process_token('\n')\<close>, and \<^verbatim>\<open>tuple(self.arguments)\<close>. The result is
  returned together with the instance as the call leaves it.
\<close>

definition ArgumentParser_call ::
  "string \<Rightarrow> ArgumentParser \<Rightarrow> exn + (string list \<times> ArgumentParser)" where
  "ArgumentParser_call argument_string self =
     (case feed (strip argument_string) self of
        Inl e \<Rightarrow> Inl e
      | Inr self1 \<Rightarrow>
          (case process_token (CHR 0x0A) self1 of
             Inl e \<Rightarrow> Inl e
           | Inr self2 \<Rightarrow> Inr (arguments self2, self2)))"

text \<open>
  \<^verbatim>\<open>ArgumentParser()(argument_string)\<close>: a new instance, called once (line 195, and
  \<^verbatim>\<open>setUp\<close> of the test).
\<close>

definition parse :: "string \<Rightarrow> exn + string list" where
  "parse argument_string =
     (case ArgumentParser_call argument_string ArgumentParser_init of
        Inl e \<Rightarrow> Inl e
      | Inr (result, self) \<Rightarrow> Inr result)"

subsection \<open>\<^verbatim>\<open>Mode\<close>: namespace, lookup and the main loop\<close>

text \<open>
  A class as \<^verbatim>\<open>build_namespace\<close> sees it: the items of \<^verbatim>\<open>cls.__dict__\<close> in their
  order, each value a \<^verbatim>\<open>Commandlet\<close> or something else, and \<^verbatim>\<open>cls.__bases__\<close>.
\<close>

datatype 'c attr = ACommandlet 'c | AOther

datatype 'c pyclass = PyClass (cls_dict: "(string \<times> 'c attr) list") (cls_bases: "'c pyclass list")

text \<open>
  The values a command is called with: the \<^verbatim>\<open>Mode\<close> instance itself (the receiver)
  and the strings of the parsed line. A command body may print and then returns or
  raises: the state it changes is the text written to standard output so far.
\<close>

datatype marg = Receiver | Str string

type_synonym 'r mode_commandlet = "(marg, string, 'r) Commandlet"

text \<open>
  A \<^verbatim>\<open>Mode\<close> instance: its class, the entries \<^verbatim>\<open>name\<close> and \<^verbatim>\<open>context\<close> of its
  \<^verbatim>\<open>__dict__\<close> (\<open>None\<close> when absent) and \<^verbatim>\<open>namespace\<close>, which \<^verbatim>\<open>build_namespace\<close>
  assigns.
\<close>

record 'r Mode =
  mode_class :: "'r mode_commandlet pyclass"
  mode_name :: "string option"
  mode_context :: "string option"
  namespace :: "'r mode_commandlet list"

text \<open>
  \<^verbatim>\<open>value not in namespace\<close> (line 175) compares with \<^verbatim>\<open>Commandlet.__eq__\<close>:
  \<open>value\<close> is in the list when some element is equal to it.
\<close>

definition in_namespace :: "('a, 'w, 'r) Commandlet \<Rightarrow> ('a, 'w, 'r) Commandlet list \<Rightarrow> bool" where
  "in_namespace v ns = list_ex (\<lambda>x. Commandlet_eq x v) ns"

text \<open>
  The nested function \<^verbatim>\<open>get_commandlets(cls)\<close> (lines 172-178); the list
  \<^verbatim>\<open>namespace\<close> it appends to is passed and returned. First the items of the class's
  own dictionary, then each base class in turn, recursively.
\<close>

definition add_attr ::
  "string \<times> ('a, 'w, 'r) Commandlet attr \<Rightarrow> ('a, 'w, 'r) Commandlet list \<Rightarrow> ('a, 'w, 'r) Commandlet list" where
  "add_attr item ns =
     (case snd item of
        ACommandlet v \<Rightarrow> if \<not> in_namespace v ns then ns @ [v] else ns
      | AOther \<Rightarrow> ns)"

fun get_commandlets ::
  "('a, 'w, 'r) Commandlet pyclass \<Rightarrow> ('a, 'w, 'r) Commandlet list \<Rightarrow> ('a, 'w, 'r) Commandlet list" where
  "get_commandlets (PyClass items bases) ns = fold get_commandlets bases (fold add_attr items ns)"

text \<open>\<^verbatim>\<open>Mode.build_namespace\<close> (lines 169-182).\<close>

definition build_namespace :: "'r Mode \<Rightarrow> 'r Mode" where
  "build_namespace self = self\<lparr>namespace := get_commandlets (mode_class self) []\<rparr>"

text \<open>
  \<^verbatim>\<open>Mode.lookup_command\<close> (lines 199-203): the loop over \<^verbatim>\<open>self.namespace\<close>, then
  the \<^verbatim>\<open>raise\<close>.
\<close>

fun lookup :: "('a, 'w, 'r) Commandlet list \<Rightarrow> string \<Rightarrow> exn + ('a, 'w, 'r) Commandlet" where
  "lookup [] command_input = Inl (IncorrectCommand command_input)"
| "lookup (c # rest) command_input =
     (if command c = command_input then Inr c else lookup rest command_input)"

definition lookup_command :: "'r Mode \<Rightarrow> string \<Rightarrow> exn + 'r mode_commandlet" where
  "lookup_command self command_input = lookup (namespace self) command_input"

text \<open>
  The prompt of \<^verbatim>\<open>get_user_input\<close> (lines 185-190). \<^verbatim>\<open>if context\<close> holds for a
  non-empty string.
\<close>

definition prompt :: "'r Mode \<Rightarrow> string" where
  "prompt self =
     (let name = (case mode_name self of None \<Rightarrow> ''unnamed'' | Some n \<Rightarrow> n) in
      case mode_context self of
        None \<Rightarrow> name @ '': ''
      | Some ctx \<Rightarrow> if ctx \<noteq> [] then name @ ''('' @ ctx @ ''): '' else name @ '': '')"

text \<open>\<^verbatim>\<open>s.split(' ')\<close>: the pieces between single spaces, empty pieces included.\<close>

fun split_space :: "string \<Rightarrow> string list" where
  "split_space [] = [[]]"
| "split_space (c # cs) =
     (if c = CHR 0x20 then [] # split_space cs
      else (case split_space cs of
              [] \<Rightarrow> [[c]]
            | w # ws \<Rightarrow> (c # w) # ws))"

text \<open>\<^verbatim>\<open>print(x)\<close>: the text and a newline, appended to the output.\<close>

definition print :: "string \<Rightarrow> string \<Rightarrow> string" where
  "print x out = out @ x @ [CHR 0x0A]"

text \<open>
  \<^verbatim>\<open>Mode.get_user_input\<close> (lines 184-197), for the line that \<^verbatim>\<open>input(prompt)\<close>
  returns: the prompt is written, the line stripped and split, the rest parsed by a
  new \<^verbatim>\<open>ArgumentParser\<close>. \<^verbatim>\<open>[0]\<close> of an empty list would raise \<^verbatim>\<open>IndexError\<close>.
\<close>

definition get_user_input ::
  "'r Mode \<Rightarrow> string \<Rightarrow> string \<Rightarrow> (exn + (string \<times> string list)) \<times> string" where
  "get_user_input self line out =
     (let out1 = out @ prompt self;
          user_input = strip line
      in case split_space user_input of
           [] \<Rightarrow> (Inl IndexError, out1)
         | command_name # rest \<Rightarrow>
             (let arguments_string = join '' '' rest
              in case parse arguments_string of
                   Inl e \<Rightarrow> (Inl e, out1)
                 | Inr args \<Rightarrow> (Inr (command_name, args), out1)))"

text \<open>
  One round of the \<^verbatim>\<open>while True\<close> loop of \<^verbatim>\<open>Mode.__call__\<close> (lines 157-167) ends
  in one of three ways: the loop goes on, it is left by \<^verbatim>\<open>break\<close>, or an exception
  that no \<^verbatim>\<open>except\<close> clause names leaves \<^verbatim>\<open>__call__\<close>.
\<close>

datatype outcome = Continue | Break | Propagate exn

text \<open>The three \<^verbatim>\<open>except\<close> clauses (lines 162-167).\<close>

fun handle_exn :: "exn \<Rightarrow> string \<Rightarrow> outcome \<times> string" where
  "handle_exn (IncorrectCommand msg) out = (Continue, print (''Incorrect command: '' @ msg) out)"
| "handle_exn (IncorrectArguments msg) out = (Continue, print (''Incorrect arguments passed: '' @ msg) out)"
| "handle_exn StopIteration out = (Break, out)"
| "handle_exn e out = (Propagate e, out)"

text \<open>
  The body of the loop for one line of input. \<^verbatim>\<open>get_user_input\<close> stands outside the
  \<^verbatim>\<open>try\<close>; \<^verbatim>\<open>lookup_command\<close> and the call \<^verbatim>\<open>command(self, *arguments)\<close> stand
  inside.
\<close>

definition iteration :: "'r Mode \<Rightarrow> string \<Rightarrow> string \<Rightarrow> outcome \<times> string" where
  "iteration self line out =
     (case get_user_input self line out of
        (Inl e, out1) \<Rightarrow> (Propagate e, out1)
      | (Inr (command_name, args), out1) \<Rightarrow>
          (case lookup_command self command_name of
             Inl e \<Rightarrow> handle_exn e out1
           | Inr c \<Rightarrow>
               (case Commandlet_call c (Receiver # map Str args) [] out1 of
                  (Inl e, out2) \<Rightarrow> handle_exn e out2
                | (Inr r, out2) \<Rightarrow> (Continue, out2))))"

text \<open>
  The loop, over the lines that \<^verbatim>\<open>input\<close> will return. At the end of the input
  \<^verbatim>\<open>input\<close> writes the prompt and raises \<^verbatim>\<open>EOFError\<close>, which no clause catches. The
  result is \<open>None\<close> when the loop was left by \<^verbatim>\<open>break\<close>, or the exception that ended
  it, with the output written.
\<close>

fun Mode_loop :: "'r Mode \<Rightarrow> string list \<Rightarrow> string \<Rightarrow> exn option \<times> string" where
  "Mode_loop self [] out = (Some EOFError, out @ prompt self)"
| "Mode_loop self (line # rest) out =
     (case iteration self line out of
        (Continue, out') \<Rightarrow> Mode_loop self rest out'
      | (Break, out') \<Rightarrow> (None, out')
      | (Propagate e, out') \<Rightarrow> (Some e, out'))"

text \<open>\<^verbatim>\<open>Mode.__call__\<close> (lines 153-167).\<close>

definition Mode_call :: "'r Mode \<Rightarrow> string list \<Rightarrow> string \<Rightarrow> exn option \<times> string" where
  "Mode_call self lines out = Mode_loop (build_namespace self) lines out"

subsection \<open>The class \<^verbatim>\<open>Mode\<close> as the module defines it\<close>

text \<open>
  The function objects of \<^verbatim>\<open>help\<close> (lines 206-226) and \<^verbatim>\<open>exit\<close> (lines 229-230).
  \<^verbatim>\<open>help\<close> has the parameters \<^verbatim>\<open>self\<close> and \<^verbatim>\<open>command_name\<close> (default \<^verbatim>\<open>''\<close>,
  annotated) and the further locals \<^verbatim>\<open>command\<close> and \<^verbatim>\<open>e\<close>; what calling it does is
  left open (\<open>help_call\<close>). \<^verbatim>\<open>exit\<close> takes the receiver alone and raises
  \<^verbatim>\<open>StopIteration\<close>; with any other arguments the call does not bind.
\<close>

definition help_func ::
  "(marg list \<Rightarrow> (string \<times> marg) list \<Rightarrow> string \<Rightarrow> (exn + 'r) \<times> string) \<Rightarrow> (marg, string, 'r) pyfunc" where
  "help_func help_call =
     \<lparr>fn_name = ''help'',
      fn_doc = Some ([CHR 0x0A] @ ''        Prints list of available commands of current mode, or detailed command info if command name is specified.'' @ [CHR 0x0A] @ ''        ''),
      co_varnames = [''self'', ''command_name'', ''command'', ''e''],
      co_argcount = 2,
      fn_defaults = Some [Str []],
      fn_annotations = [(''command_name'', ''Specifies command name to get detailed usage information.'')],
      fn_call = help_call\<rparr>"

definition exit_func :: "(marg, string, 'r) pyfunc" where
  "exit_func =
     \<lparr>fn_name = ''exit'',
      fn_doc = None,
      co_varnames = [''self''],
      co_argcount = 1,
      fn_defaults = None,
      fn_annotations = [],
      fn_call = (\<lambda>args kwargs out.
        if (length args = 1 \<and> kwargs = []) \<or> (args = [] \<and> map fst kwargs = [''self''])
        then (Inl StopIteration, out) else (Inl TypeError, out))\<rparr>"

text \<open>
  The body of \<^verbatim>\<open>class Mode\<close> as the module runs it, from the initial class
  attributes of \<^verbatim>\<open>Command\<close> and \<^verbatim>\<open>Commandlet\<close>: \<^verbatim>\<open>@Command('Print this message',
  number=998)\<close> on \<^verbatim>\<open>help\<close>, then \<^verbatim>\<open>@Command(number='999')\<close> on \<^verbatim>\<open>exit\<close>. The base
  class \<^verbatim>\<open>object\<close> has no \<^verbatim>\<open>Commandlet\<close> among its attributes.
\<close>

definition object_class :: "'c pyclass" where
  "object_class = PyClass [] []"

definition Mode_class ::
  "(marg list \<Rightarrow> (string \<times> marg) list \<Rightarrow> string \<Rightarrow> (exn + 'r) \<times> string) \<Rightarrow> 'r mode_commandlet pyclass" where
  "Mode_class help_call =
     (let (d1, ccls1) = Command_init ''Print this message'' None (Some 998) Command_cls_init;
          (help, lcls1) = Command_call d1 (help_func help_call) Commandlet_cls_init;
          (d2, ccls2) = Command_init [] None (Some 999) ccls1;
          (exit, lcls2) = Command_call d2 exit_func lcls1
      in PyClass
           [(''__call__'', AOther),
            (''build_namespace'', AOther),
            (''get_user_input'', AOther),
            (''lookup_command'', AOther),
            (''help'', ACommandlet help),
            (''exit'', ACommandlet exit)]
           [object_class])"

subsection \<open>Auxiliary notions for the proofs\<close>

text \<open>
  \<open>quote_tok t\<close>: the token \<open>t\<close> passes the test
  \<^verbatim>\<open>self.prev_token and self.prev_token in '"\''\<close> of line 282.
  \<open>carries pre a b\<close>: the instances \<open>a\<close> and \<open>b\<close> differ only in that \<open>a\<close> already holds
  the finished tokens \<open>pre\<close>, and in tokens that this test does not tell apart.
\<close>

definition quote_tok :: "char option \<Rightarrow> bool" where
  "quote_tok t = (case t of None \<Rightarrow> False | Some p \<Rightarrow> p \<in> set [CHR 0x22, CHR 0x27])"

definition carries :: "string list \<Rightarrow> ArgumentParser \<Rightarrow> ArgumentParser \<Rightarrow> bool" where
  "carries pre a b =
     (tokens a = tokens b \<and> buffer a = buffer b \<and> quote a = quote b \<and>
      arguments a = pre @ arguments b \<and> quote_tok (curr_token a) = quote_tok (curr_token b))"

text \<open>
  \<open>walk cls\<close>: the \<^verbatim>\<open>Commandlet\<close> attributes in the order in which
  \<^verbatim>\<open>get_commandlets\<close> meets them, repetitions included: those of the class's own
  dictionary, then those of each base class in turn. \<open>collect vs ns\<close>: \<open>ns\<close> after the
  values \<open>vs\<close> were offered to it one by one.
\<close>

definition own_commandlets :: "(string \<times> 'c attr) list \<Rightarrow> 'c list" where
  "own_commandlets items = concat (map (\<lambda>item. case snd item of ACommandlet v \<Rightarrow> [v] | AOther \<Rightarrow> []) items)"

fun walk :: "'c pyclass \<Rightarrow> 'c list" where
  "walk (PyClass items bases) = own_commandlets items @ concat (map walk bases)"

definition collect :: "('a, 'w, 'r) Commandlet list \<Rightarrow> ('a, 'w, 'r) Commandlet list \<Rightarrow> ('a, 'w, 'r) Commandlet list" where
  "collect vs ns = fold (\<lambda>v ns. if \<not> in_namespace v ns then ns @ [v] else ns) vs ns"

subsection \<open>Examples\<close>

text \<open>
  Used to instantiate the theorems below. \<open>ping_func\<close> is
  \<^verbatim>\<open>def ping(mode): print('pong')\<close>, a command whose receiver is not named
  \<^verbatim>\<open>self\<close>; \<open>ping\<close> is the \<^verbatim>\<open>Commandlet\<close> made of it. \<open>no_help\<close> stands in for the
  body of \<^verbatim>\<open>help\<close>. \<open>Sub_class\<close> is a subclass of \<^verbatim>\<open>Mode\<close> that declares a command
  named \<^verbatim>\<open>help\<close> of its own. \<open>a_mode cls\<close> is a new instance of \<open>cls\<close>, with neither
  \<^verbatim>\<open>name\<close> nor \<^verbatim>\<open>context\<close> set.
\<close>

definition ping_func :: "(marg, string, unit) pyfunc" where
  "ping_func =
     \<lparr>fn_name = ''ping'',
      fn_doc = None,
      co_varnames = [''mode''],
      co_argcount = 1,
      fn_defaults = None,
      fn_annotations = [],
      fn_call = (\<lambda>args kwargs out.
        if (length args = 1 \<and> kwargs = []) \<or> (args = [] \<and> map fst kwargs = [''mode''])
        then (Inr (), print ''pong'' out) else (Inl TypeError, out))\<rparr>"

definition ping :: "unit mode_commandlet" where
  "ping = fst (Commandlet_init [] ''ping'' 0 ping_func Commandlet_cls_init)"

definition no_help :: "marg list \<Rightarrow> (string \<times> marg) list \<Rightarrow> string \<Rightarrow> (exn + unit) \<times> string" where
  "no_help args kwargs out = (Inr (), out)"

definition Sub_class :: "unit mode_commandlet pyclass" where
  "Sub_class =
     PyClass [(''help'', ACommandlet (fst (Commandlet_init ''Help of Sub'' ''help'' 0 ping_func Commandlet_cls_init)))]
       [Mode_class no_help]"

definition a_mode :: "unit mode_commandlet pyclass \<Rightarrow> unit Mode" where
  "a_mode cls = \<lparr>mode_class = cls, mode_name = None, mode_context = None, namespace = []\<rparr>"

section \<open>Properties\<close>

subsection \<open>Numbering\<close>

lemma probe_empty: "probe {||} num = num"
  by (simp add: probe.simps)

lemma probe_not_used: "probe used num |\<notin>| used"
  by (induction used num rule: probe.induct) (subst probe.simps, simp)

lemma set_number_keeps_used: "number_used (snd (set_number request cls)) = number_used cls"
  by (simp add: set_number_def split: option.splits)

text \<open>
  C1 (fails on the code). The claim: no two descriptors ever receive the same
  ordinal, and every chosen ordinal is added to the used-set. The code probes
  \<^verbatim>\<open>number_used\<close> but never adds to it, so the set stays empty and nothing is ever
  advanced: starting from the initial class state, \<^verbatim>\<open>Command(number=5)\<close> twice yields
  5 and 5, and \<^verbatim>\<open>Command()\<close> followed by \<^verbatim>\<open>Command(number=0)\<close> yields 0 and 0; the
  used-set is still empty afterwards, as no call of \<^verbatim>\<open>set_number\<close> changes it.
\<close>

theorem set_number_repeats_ordinal:
  "(let (d1, cls1) = Command_init [] None (Some 5) Command_cls_init;
        (d2, cls2) = Command_init [] None (Some 5) cls1
    in cmd_number d1 = 5 \<and> cmd_number d2 = 5 \<and> number_used cls2 = {||})
   \<and>
   (let (d1, cls1) = Command_init [] None None Command_cls_init;
        (d2, cls2) = Command_init [] None (Some 0) cls1
    in cmd_number d1 = 0 \<and> cmd_number d2 = 0 \<and> number_used cls2 = {||})
   \<and>
   number_used (snd (set_number request cls)) = number_used cls"
proof -
  have "number_used (snd (set_number request cls)) = number_used cls"
    by (rule set_number_keeps_used)
  then show ?thesis
    by (simp add: Command_init_def set_number_def Command_cls_init_def probe_empty)
qed

subsection \<open>The tokenizer\<close>

lemma process_token_total: "\<exists>s'. process_token c s = Inr s'"
  by (simp add: process_token_def change_token_def flush_buffer_def Let_def)

lemma feed_symbol_total: "\<exists>s'. feed_symbol c s = Inr s'"
  using process_token_total by (simp add: feed_symbol_def)

lemma feed_total: "\<exists>s'. feed cs s = Inr s'"
proof (induction cs arbitrary: s)
  case Nil
  show ?case by simp
next
  case (Cons c cs)
  obtain s1 where "feed_symbol c s = Inr s1"
    using feed_symbol_total by blast
  then show ?case
    using Cons.IH [of s1] by simp
qed

lemma ArgumentParser_call_total: "\<exists>r s'. ArgumentParser_call line s = Inr (r, s')"
proof -
  obtain s1 where 1: "feed (strip line) s = Inr s1"
    using feed_total by blast
  obtain s2 where 2: "process_token (CHR 0x0A) s1 = Inr s2"
    using process_token_total by blast
  show ?thesis
    by (simp add: ArgumentParser_call_def 1 2)
qed

lemma parse_returns: "\<exists>result. parse line = Inr result"
proof -
  obtain r s' where "ArgumentParser_call line ArgumentParser_init = Inr (r, s')"
    using ArgumentParser_call_total by blast
  then have "parse line = Inr r"
    by (simp add: parse_def)
  then show ?thesis ..
qed

text \<open>
  C6. Parsing is total and deterministic: for every input string a new tokenizer
  raises nothing and returns one tuple, the same every time; a call on an instance in
  any state raises nothing either.
\<close>

theorem parse_total:
  "(\<exists>!result. parse line = Inr result)
   \<and> (\<exists>result self'. ArgumentParser_call line self = Inr (result, self'))"
proof -
  obtain r s' where "ArgumentParser_call line ArgumentParser_init = Inr (r, s')"
    using ArgumentParser_call_total by blast
  then have "parse line = Inr r"
    by (simp add: parse_def)
  then have "\<exists>!result. parse line = Inr result"
    by simp
  then show ?thesis
    using ArgumentParser_call_total by blast
qed

lemma process_token_carries:
  assumes "carries pre a b"
  shows "\<exists>a' b'. process_token c a = Inr a' \<and> process_token c b = Inr b' \<and> carries pre a' b'"
  using assms
  by (auto simp: carries_def quote_tok_def process_token_def change_token_def flush_buffer_def Let_def
      split: option.splits)

lemma feed_symbol_carries:
  assumes "carries pre a b"
  shows "\<exists>a' b'. feed_symbol c a = Inr a' \<and> feed_symbol c b = Inr b' \<and> carries pre a' b'"
proof -
  have same: "tokens a = tokens b" "quote a = quote b" "buffer a = buffer b"
    using assms by (simp_all add: carries_def)
  show ?thesis
  proof (cases "(quote a \<noteq> None \<and> Some c = quote a) \<or> (quote a = None \<and> c \<in> set (tokens a))")
    case True
    then have "feed_symbol c a = process_token c a" "feed_symbol c b = process_token c b"
      using same by (auto simp: feed_symbol_def)
    then show ?thesis
      using process_token_carries [OF assms, of c] by simp
  next
    case False
    then have "feed_symbol c a = Inr (a\<lparr>buffer := buffer a @ [c]\<rparr>)"
      "feed_symbol c b = Inr (b\<lparr>buffer := buffer b @ [c]\<rparr>)"
      using same by (auto simp: feed_symbol_def)
    then show ?thesis
      using assms by (simp add: carries_def)
  qed
qed

lemma feed_carries:
  "carries pre a b \<Longrightarrow> \<exists>a' b'. feed cs a = Inr a' \<and> feed cs b = Inr b' \<and> carries pre a' b'"
proof (induction cs arbitrary: a b)
  case Nil
  then show ?case by simp
next
  case (Cons c cs)
  obtain a1 b1 where 1: "feed_symbol c a = Inr a1" "feed_symbol c b = Inr b1" "carries pre a1 b1"
    using feed_symbol_carries [OF Cons.prems] by blast
  show ?case
    using Cons.IH [OF 1(3)] 1(1,2) by simp
qed

lemma ArgumentParser_call_carries:
  assumes "carries pre a b"
  shows "\<exists>r a' b'. ArgumentParser_call line a = Inr (pre @ r, a') \<and> ArgumentParser_call line b = Inr (r, b')
            \<and> carries pre a' b'"
proof -
  obtain a1 b1 where 1: "feed (strip line) a = Inr a1" "feed (strip line) b = Inr b1" "carries pre a1 b1"
    using feed_carries [OF assms] by blast
  obtain a2 b2 where 2: "process_token (CHR 0x0A) a1 = Inr a2" "process_token (CHR 0x0A) b1 = Inr b2"
    "carries pre a2 b2"
    using process_token_carries [OF 1(3)] by blast
  have "arguments a2 = pre @ arguments b2"
    using 2(3) by (simp add: carries_def)
  then show ?thesis
    using 1 2 by (simp add: ArgumentParser_call_def)
qed

lemma process_token_newline_after:
  assumes "process_token (CHR 0x0A) s = Inr s'"
  shows "buffer s' = [] \<and> curr_token s' = Some (CHR 0x0A) \<and> quote s' = quote s \<and> tokens s' = tokens s"
  using assms
  by (auto simp: process_token_def change_token_def flush_buffer_def Let_def split: option.splits if_splits)

lemma process_token_tokens: "process_token c s = Inr s' \<Longrightarrow> tokens s' = tokens s"
  by (auto simp: process_token_def change_token_def flush_buffer_def Let_def split: option.splits if_splits)

lemma feed_symbol_tokens: "feed_symbol c s = Inr s' \<Longrightarrow> tokens s' = tokens s"
  by (auto simp: feed_symbol_def dest: process_token_tokens split: if_splits)

lemma feed_tokens: "feed cs s = Inr s' \<Longrightarrow> tokens s' = tokens s"
proof (induction cs arbitrary: s)
  case Nil
  then show ?case by simp
next
  case (Cons c cs)
  then show ?case
    by (auto split: sum.splits dest: feed_symbol_tokens)
qed

lemma ArgumentParser_call_after:
  assumes "ArgumentParser_call line s = Inr (r, s')"
  shows "buffer s' = [] \<and> curr_token s' = Some (CHR 0x0A) \<and> tokens s' = tokens s \<and> arguments s' = r"
proof -
  obtain s1 where 1: "feed (strip line) s = Inr s1" and 2: "process_token (CHR 0x0A) s1 = Inr s'"
    and 3: "r = arguments s'"
    using assms by (auto simp: ArgumentParser_call_def split: sum.splits)
  show ?thesis
    using process_token_newline_after [OF 2] feed_tokens [OF 1] 3 by simp
qed

text \<open>
  C9, amended. The state belongs to the instance and a call does not reset it. On an
  instance that has parsed \<open>s1\<close> and was left with no quote open, the buffer is empty,
  and parsing \<open>s2\<close> returns the tokens of \<open>s1\<close> followed by the tokens that a new
  instance returns for \<open>s2\<close>.
\<close>

theorem reused_parser_accumulates:
  assumes "ArgumentParser_call s1 ArgumentParser_init = Inr (r1, self1)"
    and "quote self1 = None"
  shows "buffer self1 = [] \<and>
         (\<exists>r2 self2. parse s2 = Inr r2 \<and> ArgumentParser_call s2 self1 = Inr (r1 @ r2, self2))"
proof -
  have after: "buffer self1 = []" "curr_token self1 = Some (CHR 0x0A)"
    "tokens self1 = tokens ArgumentParser_init" "arguments self1 = r1"
    using ArgumentParser_call_after [OF assms(1)] by simp_all
  have "carries r1 self1 ArgumentParser_init"
    using after assms(2) by (simp add: carries_def quote_tok_def ArgumentParser_init_def)
  then obtain r a' b' where
    "ArgumentParser_call s2 self1 = Inr (r1 @ r, a')" "ArgumentParser_call s2 ArgumentParser_init = Inr (r, b')"
    using ArgumentParser_call_carries by blast
  then show ?thesis
    using after(1) by (simp add: parse_def)
qed


text \<open>
  An instance of C9 as amended: \<^verbatim>\<open>a\<close>, then \<^verbatim>\<open>b\<close> on the same instance.
\<close>

theorem reused_parser_accumulates_witness:
  \<open>ArgumentParser_call ''a'' ArgumentParser_init =
      Inr ([''a''], ArgumentParser_init\<lparr>curr_token := Some (CHR 0x0A), arguments := [''a'']\<rparr>)
   \<and> parse ''b'' = Inr [''b'']
   \<and> ArgumentParser_call ''b'' (ArgumentParser_init\<lparr>curr_token := Some (CHR 0x0A), arguments := [''a'']\<rparr>) =
      Inr ([''a'', ''b''], ArgumentParser_init\<lparr>curr_token := Some (CHR 0x0A), prev_token := Some (CHR 0x0A), arguments := [''a'', ''b'']\<rparr>)\<close>
proof -
  have 1: "ArgumentParser_call ''a'' ArgumentParser_init =
      Inr ([''a''], ArgumentParser_init\<lparr>curr_token := Some (CHR 0x0A), arguments := [''a'']\<rparr>)"
    by (simp add: parse_def ArgumentParser_call_def ArgumentParser_init_def strip_def isspace_def
      feed_symbol_def process_token_def change_token_def flush_buffer_def)
  have 2: "quote (ArgumentParser_init\<lparr>curr_token := Some (CHR 0x0A), arguments := [''a'']\<rparr>) = None"
    by (simp add: ArgumentParser_init_def)
  have 3: "ArgumentParser_call ''b'' (ArgumentParser_init\<lparr>curr_token := Some (CHR 0x0A), arguments := [''a'']\<rparr>) =
      Inr ([''a'', ''b''], ArgumentParser_init\<lparr>curr_token := Some (CHR 0x0A), prev_token := Some (CHR 0x0A), arguments := [''a'', ''b'']\<rparr>)"
    by (simp add: parse_def ArgumentParser_call_def ArgumentParser_init_def strip_def isspace_def
      feed_symbol_def process_token_def change_token_def flush_buffer_def)
  have 4: "parse ''b'' = Inr [''b'']"
    using reused_parser_accumulates [OF 1 2, of "''b''"] 3 by auto
  show ?thesis
    using 1 3 4 by simp
qed

text \<open>
  C9 as stated fails: after \<^verbatim>\<open>a\<close>, the same instance returns \<^verbatim>\<open>('a', 'b')\<close> for
  \<^verbatim>\<open>b\<close>, where a new instance returns \<^verbatim>\<open>('b',)\<close>.
\<close>

theorem reused_parser_differs:
  \<open>parse ''b'' = Inr [''b''] \<and>
   (case ArgumentParser_call ''a'' ArgumentParser_init of
      Inl e \<Rightarrow> False
    | Inr (r1, self1) \<Rightarrow>
        (case ArgumentParser_call ''b'' self1 of
           Inl e \<Rightarrow> False
         | Inr (r2, self2) \<Rightarrow> r2 = [''a'', ''b''] \<and> r2 \<noteq> [''b'']))\<close>
  by (simp add: parse_def ArgumentParser_call_def ArgumentParser_init_def strip_def isspace_def
      feed_symbol_def process_token_def change_token_def flush_buffer_def)

lemma strip_unchanged:
  assumes "s \<noteq> []" "\<not> isspace (hd s)" "\<not> isspace (last s)"
  shows "strip s = s"
proof -
  have 1: "dropWhile isspace s = s"
    using assms(1,2) by (cases s) simp_all
  have "rev s \<noteq> []" "\<not> isspace (hd (rev s))"
    using assms(1,3) by (simp_all add: hd_rev)
  then have 2: "dropWhile isspace (rev s) = rev s"
    by (cases "rev s") simp_all
  show ?thesis
    by (simp add: strip_def 1 2)
qed

lemma feed_append:
  "feed (xs @ ys) s = (case feed xs s of Inl e \<Rightarrow> Inl e | Inr s' \<Rightarrow> feed ys s')"
  by (induction xs arbitrary: s) (auto split: sum.splits)

lemma feed_inside_quote:
  "quote s = Some q \<Longrightarrow> q \<notin> set w \<Longrightarrow> feed w s = Inr (s\<lparr>buffer := buffer s @ w\<rparr>)"
proof (induction w arbitrary: s)
  case Nil
  then show ?case by simp
next
  case (Cons c w)
  have "feed_symbol c s = Inr (s\<lparr>buffer := buffer s @ [c]\<rparr>)"
    using Cons.prems by (auto simp: feed_symbol_def)
  moreover have "feed w (s\<lparr>buffer := buffer s @ [c]\<rparr>) = Inr (s\<lparr>buffer := buffer s @ [c]\<rparr>\<lparr>buffer := buffer (s\<lparr>buffer := buffer s @ [c]\<rparr>) @ w\<rparr>)"
    using Cons.prems by (intro Cons.IH) simp_all
  ultimately show ?case by simp
qed

lemma isspace_delims: "isspace (CHR 0x20)" "isspace (CHR 0x0A)" "\<not> isspace (CHR 0x22)" "\<not> isspace (CHR 0x27)"
  by (simp_all add: isspace_def)

lemma closing_quote_step:
  assumes "quote self = Some q" "q = CHR 0x22 \<or> q = CHR 0x27"
  shows "feed_symbol q self = Inr (self\<lparr>prev_token := curr_token self, curr_token := Some q, quote := None\<rparr>)"
  using assms by (auto simp: feed_symbol_def process_token_def change_token_def Let_def)

lemma parse_quoted_then_char:
  assumes q: "q = CHR 0x22 \<or> q = CHR 0x27" and w: "q \<notin> set w"
    and c: "\<not> isspace c" "c \<noteq> CHR 0x22" "c \<noteq> CHR 0x27"
  shows "parse (q # w @ [q, c]) = Inr [w @ [c]]"
proof -
  have cd: "c \<noteq> CHR 0x20" "c \<noteq> CHR 0x0A"
    using c(1) isspace_delims by auto
  have "\<not> isspace q"
    using q isspace_delims by auto
  then have st: "strip (q # w @ [q, c]) = q # w @ [q, c]"
    using c(1) by (intro strip_unchanged) simp_all
  define s1 where "s1 = ArgumentParser_init\<lparr>prev_token := None, curr_token := Some q, quote := Some q\<rparr>"
  define s2 where "s2 = s1\<lparr>buffer := w\<rparr>"
  define s3 where "s3 = s2\<lparr>prev_token := Some q, curr_token := Some q, quote := None\<rparr>"
  define s4 where "s4 = s3\<lparr>buffer := w @ [c]\<rparr>"
  have 1: "feed_symbol q ArgumentParser_init = Inr s1"
    using q by (auto simp: s1_def feed_symbol_def process_token_def change_token_def Let_def ArgumentParser_init_def)
  have 2: "feed w s1 = Inr s2"
    using feed_inside_quote [of s1 q w] w by (simp add: s1_def s2_def ArgumentParser_init_def)
  have 3: "feed_symbol q s2 = Inr s3"
    using closing_quote_step [of s2 q] q by (simp add: s1_def s2_def s3_def)
  have 4: "feed_symbol c s3 = Inr s4"
    using c cd by (simp add: feed_symbol_def s1_def s2_def s3_def s4_def ArgumentParser_init_def)
  have 5: "process_token (CHR 0x0A) s4 = Inr (s4\<lparr>prev_token := Some q, curr_token := Some (CHR 0x0A), buffer := [], arguments := [w @ [c]]\<rparr>)"
    using q by (auto simp: process_token_def change_token_def flush_buffer_def Let_def
        s1_def s2_def s3_def s4_def ArgumentParser_init_def)
  have "feed (q # w @ [q, c]) ArgumentParser_init = Inr s4"
    by (simp add: 1 feed_append 2 3 4)
  then show ?thesis
    by (simp add: parse_def ArgumentParser_call_def st 5)
qed

lemma delimiter_after_quote_step:
  assumes "curr_token self = Some q" "q = CHR 0x22 \<or> q = CHR 0x27" "d = CHR 0x20 \<or> d = CHR 0x0A"
  shows "process_token d self =
     Inr (self\<lparr>prev_token := Some q, curr_token := Some d, buffer := [],
               arguments := arguments self @ [buffer self]\<rparr>)"
  using assms by (auto simp: process_token_def change_token_def flush_buffer_def Let_def)

text \<open>
  C3, amended. While a quote is open, the character equal to it only closes the quote:
  buffer and results stay as they are. The buffered text is finished by the next space
  or newline that is processed (the newline added at the end included); when the
  delimiter before it was a quote, it is appended even if empty. So a quoted text \<open>w\<close>
  directly followed by a character \<open>c\<close> that is neither a quote nor whitespace gives
  the single token \<open>w @ [c]\<close>.
\<close>

theorem closing_quote_does_not_finalize:
  "(quote self = Some q \<and> (q = CHR 0x22 \<or> q = CHR 0x27) \<longrightarrow>
      feed_symbol q self = Inr (self\<lparr>prev_token := curr_token self, curr_token := Some q, quote := None\<rparr>))
   \<and>
   (curr_token self = Some q \<and> (q = CHR 0x22 \<or> q = CHR 0x27) \<and> (d = CHR 0x20 \<or> d = CHR 0x0A) \<longrightarrow>
      process_token d self =
        Inr (self\<lparr>prev_token := Some q, curr_token := Some d, buffer := [],
                  arguments := arguments self @ [buffer self]\<rparr>))
   \<and>
   ((q = CHR 0x22 \<or> q = CHR 0x27) \<and> q \<notin> set w \<and> \<not> isspace c \<and> c \<noteq> CHR 0x22 \<and> c \<noteq> CHR 0x27 \<longrightarrow>
      parse (q # w @ [q, c]) = Inr [w @ [c]])"
proof (intro conjI impI)
  assume "quote self = Some q \<and> (q = CHR 0x22 \<or> q = CHR 0x27)"
  then have "quote self = Some q" "q = CHR 0x22 \<or> q = CHR 0x27"
    by simp_all
  then show "feed_symbol q self =
      Inr (self\<lparr>prev_token := curr_token self, curr_token := Some q, quote := None\<rparr>)"
    by (rule closing_quote_step)
next
  assume "curr_token self = Some q \<and> (q = CHR 0x22 \<or> q = CHR 0x27) \<and> (d = CHR 0x20 \<or> d = CHR 0x0A)"
  then have "curr_token self = Some q" "q = CHR 0x22 \<or> q = CHR 0x27" "d = CHR 0x20 \<or> d = CHR 0x0A"
    by simp_all
  then show "process_token d self =
      Inr (self\<lparr>prev_token := Some q, curr_token := Some d, buffer := [],
                arguments := arguments self @ [buffer self]\<rparr>)"
    by (rule delimiter_after_quote_step)
next
  assume "(q = CHR 0x22 \<or> q = CHR 0x27) \<and> q \<notin> set w \<and> \<not> isspace c \<and> c \<noteq> CHR 0x22 \<and> c \<noteq> CHR 0x27"
  then have "q = CHR 0x22 \<or> q = CHR 0x27" "q \<notin> set w" "\<not> isspace c" "c \<noteq> CHR 0x22" "c \<noteq> CHR 0x27"
    by simp_all
  then show "parse (q # w @ [q, c]) = Inr [w @ [c]]"
    by (rule parse_quoted_then_char)
qed

text \<open>
  Instances of C3 as amended: the open double quote with \<^verbatim>\<open>x\<close> buffered; a space after a
  closing double quote with nothing buffered; and the line \<^verbatim>\<open>"x"c\<close>.
\<close>

theorem closing_quote_does_not_finalize_witness:
  \<open>feed_symbol (CHR 0x22) (ArgumentParser_init\<lparr>buffer := ''x'', quote := Some (CHR 0x22)\<rparr>) =
     Inr (ArgumentParser_init\<lparr>buffer := ''x'', quote := Some (CHR 0x22)\<rparr>
            \<lparr>prev_token := None, curr_token := Some (CHR 0x22), quote := None\<rparr>)
   \<and> process_token (CHR 0x20) (ArgumentParser_init\<lparr>curr_token := Some (CHR 0x22)\<rparr>) =
     Inr (ArgumentParser_init\<lparr>prev_token := Some (CHR 0x22), curr_token := Some (CHR 0x20), arguments := ['''']\<rparr>)
   \<and> parse ''"x"c'' = Inr [''xc'']\<close>
proof -
  have 1: "feed_symbol (CHR 0x22) (ArgumentParser_init\<lparr>buffer := ''x'', quote := Some (CHR 0x22)\<rparr>) =
     Inr (ArgumentParser_init\<lparr>buffer := ''x'', quote := Some (CHR 0x22)\<rparr>
            \<lparr>prev_token := None, curr_token := Some (CHR 0x22), quote := None\<rparr>)"
    using closing_quote_does_not_finalize
      [of "ArgumentParser_init\<lparr>buffer := ''x'', quote := Some (CHR 0x22)\<rparr>" "CHR 0x22"]
    by (simp add: ArgumentParser_init_def)
  have 2: "process_token (CHR 0x20) (ArgumentParser_init\<lparr>curr_token := Some (CHR 0x22)\<rparr>) =
     Inr (ArgumentParser_init\<lparr>prev_token := Some (CHR 0x22), curr_token := Some (CHR 0x20), arguments := ['''']\<rparr>)"
    using closing_quote_does_not_finalize
      [of "ArgumentParser_init\<lparr>curr_token := Some (CHR 0x22)\<rparr>" "CHR 0x22" "CHR 0x20"]
    by (simp add: ArgumentParser_init_def)
  have 3: \<open>parse ''"x"c'' = Inr [''xc'']\<close>
    using closing_quote_does_not_finalize [of _ "CHR 0x22" _ "''x''" "CHR ''c''"]
    by (simp add: isspace_def)
  show ?thesis
    using 1 2 3 by simp
qed

text \<open>
  C3 as stated fails: \<^verbatim>\<open>"x"c\<close> gives the one token \<^verbatim>\<open>xc\<close>, not \<^verbatim>\<open>x\<close> and
  \<^verbatim>\<open>c\<close>.
\<close>

theorem quoted_then_char_merges: \<open>parse ''"x"c'' = Inr [''xc''] \<and> parse ''"x"c'' \<noteq> Inr [''x'', ''c'']\<close>
  by (simp add: parse_def ArgumentParser_call_def ArgumentParser_init_def strip_def isspace_def
      feed_symbol_def process_token_def change_token_def flush_buffer_def)

text \<open>
  C5. The line of \<^verbatim>\<open>test_call__\<close> gives the five tokens the test expects.
\<close>

theorem parse_test_line:
  \<open>parse '' test "" "with space"   'with "space and different" quote' case '' =
   Inr [''test'', '''', ''with space'', ''with "space and different" quote'', ''case'']\<close>
  by (simp add: parse_def ArgumentParser_call_def ArgumentParser_init_def strip_def isspace_def
      feed_symbol_def process_token_def change_token_def flush_buffer_def)

subsection \<open>Arity and keyword arguments\<close>

lemma enumerate_filter_take:
  "map snd (filter (\<lambda>(i, arg). i < k + n) (enumerate k xs)) = take n xs"
proof (induction xs arbitrary: k n)
  case Nil
  show ?case by simp
next
  case (Cons x xs)
  show ?case
  proof (cases n)
    case 0
    have "filter (\<lambda>(i, arg). i < k) (enumerate k (x # xs)) = []"
      by (auto simp: filter_empty_conv in_set_enumerate_eq)
    then show ?thesis
      using 0 by simp
  next
    case (Suc m)
    have "map snd (filter (\<lambda>(i, arg). i < Suc k + m) (enumerate (Suc k) xs)) = take m xs"
      by (rule Cons.IH)
    then show ?thesis
      using Suc by simp
  qed
qed

lemma Commandlet_init_arguments:
  "Commandlet.arguments (fst (Commandlet_init d n k f cls)) = take (co_argcount f) (co_varnames f)"
  using enumerate_filter_take [of 0 "co_argcount f" "co_varnames f"]
  by (simp add: Commandlet_init_def Let_def)

text \<open>
  C2, amended. For a function whose \<^verbatim>\<open>co_argcount\<close> names are all in
  \<^verbatim>\<open>co_varnames\<close> (every Python function), the \<^verbatim>\<open>Commandlet\<close> made of it has
  \<^verbatim>\<open>arguments_max\<close> equal to the number of declared parameters with the receiver
  counted, \<^verbatim>\<open>arguments_min\<close> equal to \<^verbatim>\<open>arguments_max\<close> minus the number of default
  values, \<^verbatim>\<open>arguments_min \<le> arguments_max\<close>, and \<^verbatim>\<open>arguments\<close> equal to the declared
  parameter names, the receiver first.
\<close>

theorem Commandlet_init_arity:
  assumes "co_argcount f \<le> length (co_varnames f)"
  shows "arguments_max (fst (Commandlet_init d n k f cls)) = int (co_argcount f)
       \<and> arguments_min (fst (Commandlet_init d n k f cls)) =
           arguments_max (fst (Commandlet_init d n k f cls))
             - (case fn_defaults f of None \<Rightarrow> 0 | Some defaults \<Rightarrow> int (length defaults))
       \<and> arguments_min (fst (Commandlet_init d n k f cls)) \<le> arguments_max (fst (Commandlet_init d n k f cls))
       \<and> Commandlet.arguments (fst (Commandlet_init d n k f cls)) = take (co_argcount f) (co_varnames f)"
proof -
  have "map snd (filter (\<lambda>(i, arg). i < co_argcount f) (enumerate 0 (co_varnames f))) = take (co_argcount f) (co_varnames f)"
    using enumerate_filter_take [of 0 "co_argcount f" "co_varnames f"] by simp
  then show ?thesis
    using assms by (simp add: Commandlet_init_def Let_def split: option.splits)
qed

text \<open>
  An instance of C2 as amended: \<^verbatim>\<open>help\<close>, with two parameters and one default.
\<close>

theorem Commandlet_init_arity_witness:
  "co_argcount (help_func no_help) \<le> length (co_varnames (help_func no_help))
   \<and> arguments_max (fst (Commandlet_init ''Print this message'' ''help'' 998 (help_func no_help) Commandlet_cls_init)) = 2
   \<and> arguments_min (fst (Commandlet_init ''Print this message'' ''help'' 998 (help_func no_help) Commandlet_cls_init)) = 1
   \<and> Commandlet.arguments (fst (Commandlet_init ''Print this message'' ''help'' 998 (help_func no_help) Commandlet_cls_init))
        = [''self'', ''command_name'']"
proof -
  have h: "co_argcount (help_func no_help) \<le> length (co_varnames (help_func no_help))"
    by (simp add: help_func_def)
  show ?thesis
    using h Commandlet_init_arity [OF h, of "''Print this message''" "''help''" 998 Commandlet_cls_init]
    by (simp add: help_func_def Commandlet_init_def Let_def)
qed

text \<open>
  C2 as stated fails: \<^verbatim>\<open>exit\<close> declares one parameter, the receiver, and its
  \<^verbatim>\<open>arguments_max\<close> is 1, not 0.
\<close>

theorem arity_counts_receiver:
  "arguments_max (fst (Commandlet_init [] ''exit'' 999 (exit_func :: (marg, string, unit) pyfunc) Commandlet_cls_init)) = 1
   \<and> int (co_argcount (exit_func :: (marg, string, unit) pyfunc)) - 1 = 0
   \<and> arguments_max (fst (Commandlet_init [] ''exit'' 999 (exit_func :: (marg, string, unit) pyfunc) Commandlet_cls_init))
       \<noteq> int (co_argcount (exit_func :: (marg, string, unit) pyfunc)) - 1"
  by (simp add: Commandlet_init_def exit_func_def Let_def)

lemma check_kwargs_find:
  "check_kwargs args names =
     (case find (\<lambda>name. name \<notin> set args) names of
        None \<Rightarrow> None
      | Some name \<Rightarrow> Some (IncorrectArguments (''wrong keyword argument: '' @ name)))"
  by (induction names) simp_all

text \<open>
  C4, amended. When the number of arguments is within
  \<^verbatim>\<open>[arguments_min, arguments_max]\<close>, the keys of the keyword arguments are checked
  against all declared parameter names, the receiver's included: the first key, in
  order, that is not among them raises \<^verbatim>\<open>IncorrectArguments\<close> naming it; when there
  is none the function is called and what it returns or raises is passed on unchanged.
  (A keyword \<^verbatim>\<open>self\<close> does not get this far.)
\<close>

theorem Commandlet_call_checks_keywords:
  assumes "''self'' \<notin> set (map fst kwargs)"
    and "arguments_min c \<le> int (length args) + int (length kwargs)"
    and "int (length args) + int (length kwargs) \<le> arguments_max c"
  shows "Commandlet_call c args kwargs w =
     (case find (\<lambda>name. name \<notin> set (Commandlet.arguments c)) (map fst kwargs) of
        Some name \<Rightarrow> (Inl (IncorrectArguments (''wrong keyword argument: '' @ name)), w)
      | None \<Rightarrow> fn_call (func c) args kwargs w)"
  using assms by (simp add: Commandlet_call_def check_kwargs_find split: option.splits)

text \<open>
  Instances of C4 as amended: a key that is no parameter, and the receiver's name.
\<close>

theorem Commandlet_call_checks_keywords_witness:
  "Commandlet_call ping [] [(''bogus'', Str ''x'')] [] = (Inl (IncorrectArguments ''wrong keyword argument: bogus''), [])
   \<and> Commandlet_call ping [] [(''mode'', Receiver)] [] = (Inr (), ''pong'' @ [CHR 0x0A])"
proof -
  have p: "arguments_min ping = 1" "arguments_max ping = 1" "Commandlet.arguments ping = [''mode'']"
    "func ping = ping_func"
    by (simp_all add: ping_def ping_func_def Commandlet_init_def Let_def)
  have 1: "Commandlet_call ping [] [(''bogus'', Str ''x'')] [] =
      (Inl (IncorrectArguments ''wrong keyword argument: bogus''), [])"
    using Commandlet_call_checks_keywords [of "[(''bogus'', Str ''x'')]" ping "[]" "[]"] p by simp
  have 2: "Commandlet_call ping [] [(''mode'', Receiver)] [] = (Inr (), ''pong'' @ [CHR 0x0A])"
    using Commandlet_call_checks_keywords [of "[(''mode'', Receiver)]" ping "[]" "[]"] p
    by (simp add: ping_func_def print_def)
  show ?thesis
    using 1 2 by simp
qed

text \<open>
  C4 as stated fails: the key \<^verbatim>\<open>mode\<close> names the receiver of \<^verbatim>\<open>ping\<close>, not one of
  its other parameters, and \<^verbatim>\<open>ping(mode=...)\<close> is let through to the function.
\<close>

theorem receiver_keyword_passes:
  "arguments_min ping = 1 \<and> arguments_max ping = 1 \<and> Commandlet.arguments ping = [''mode'']
   \<and> Commandlet_call ping [] [(''mode'', Receiver)] [] = (Inr (), ''pong'' @ [CHR 0x0A])
   \<and> Commandlet_call ping [] [(''mode'', Receiver)] []
        \<noteq> (Inl (IncorrectArguments ''wrong keyword argument: mode''), [])"
  by (simp add: ping_def ping_func_def Commandlet_init_def Commandlet_call_def print_def Let_def)

subsection \<open>The namespace\<close>

lemma in_namespace_iff: "in_namespace v ns \<longleftrightarrow> command v \<in> command ` set ns"
proof
  assume "in_namespace v ns"
  then obtain x where "x \<in> set ns" "command x = command v"
    by (auto simp: in_namespace_def list_ex_iff Commandlet_eq_def)
  then show "command v \<in> command ` set ns"
    by (simp add: rev_image_eqI)
next
  assume "command v \<in> command ` set ns"
  then obtain x where "x \<in> set ns" "command v = command x"
    by (rule imageE)
  then show "in_namespace v ns"
    by (auto simp: in_namespace_def list_ex_iff Commandlet_eq_def)
qed

lemma collect_Nil: "collect [] ns = ns"
  by (simp add: collect_def)

lemma collect_Cons:
  "collect (v # vs) ns = collect vs (if command v \<in> command ` set ns then ns else ns @ [v])"
  by (simp add: collect_def in_namespace_iff)

lemma collect_append: "collect (xs @ ys) ns = collect ys (collect xs ns)"
  by (simp add: collect_def)

lemma fold_add_attr: "fold add_attr items ns = collect (own_commandlets items) ns"
proof (induction items arbitrary: ns)
  case Nil
  show ?case by (simp add: own_commandlets_def collect_Nil)
next
  case (Cons item items)
  have "own_commandlets (item # items) =
      (case snd item of ACommandlet v \<Rightarrow> [v] | AOther \<Rightarrow> []) @ own_commandlets items"
    by (simp add: own_commandlets_def)
  then show ?case
    using Cons.IH by (cases "snd item") (simp_all add: add_attr_def collect_Cons collect_Nil in_namespace_iff)
qed

lemma get_commandlets_collect: "get_commandlets cls ns = collect (walk cls) ns"
proof (induction cls arbitrary: ns)
  case (PyClass items bases)
  have "fold get_commandlets bases ns' = collect (concat (map walk bases)) ns'" for ns'
    using PyClass.IH
  proof (induction bases arbitrary: ns')
    case Nil
    show ?case by (simp add: collect_Nil)
  next
    case (Cons b bs)
    then show ?case
      by (simp add: collect_append)
  qed
  then show ?case
    by (simp add: fold_add_attr collect_append)
qed

lemma collect_distinct:
  "distinct (map command ns) \<Longrightarrow> distinct (map command (collect vs ns))"
  by (induction vs arbitrary: ns) (simp_all add: collect_Nil collect_Cons)

lemma collect_names:
  "command ` set (collect vs ns) = command ` set ns \<union> command ` set vs"
  by (induction vs arbitrary: ns) (auto simp: collect_Nil collect_Cons)

lemma collect_first:
  "c \<in> set (collect vs ns) \<Longrightarrow>
     c \<in> set ns \<or> (command c \<notin> command ` set ns \<and> find (\<lambda>d. command d = command c) vs = Some c)"
proof (induction vs arbitrary: ns)
  case Nil
  then show ?case by (simp add: collect_Nil)
next
  case (Cons v vs)
  show ?case
  proof (cases "command v \<in> command ` set ns")
    case True
    then have "c \<in> set (collect vs ns)"
      using Cons.prems by (simp add: collect_Cons)
    then have "c \<in> set ns \<or> (command c \<notin> command ` set ns \<and> find (\<lambda>d. command d = command c) vs = Some c)"
      by (rule Cons.IH)
    then show ?thesis
      using True by auto
  next
    case False
    then have "c \<in> set (collect vs (ns @ [v]))"
      using Cons.prems by (simp add: collect_Cons)
    then have "c \<in> set (ns @ [v]) \<or>
        (command c \<notin> command ` set (ns @ [v]) \<and> find (\<lambda>d. command d = command c) vs = Some c)"
      by (rule Cons.IH)
    then show ?thesis
      using False by auto
  qed
qed

text \<open>
  C7. The namespace that \<^verbatim>\<open>build_namespace\<close> assigns holds at most one
  \<^verbatim>\<open>Commandlet\<close> per command name, it holds one for every name met in the walk, and
  each entry is the first \<^verbatim>\<open>Commandlet\<close> of its name that the walk meets.
\<close>

theorem build_namespace_first_per_name:
  "distinct (map command (namespace (build_namespace self)))
   \<and> command ` set (namespace (build_namespace self)) = command ` set (walk (mode_class self))
   \<and> (\<forall>c \<in> set (namespace (build_namespace self)).
        find (\<lambda>d. command d = command c) (walk (mode_class self)) = Some c)"
proof -
  have ns: "namespace (build_namespace self) = collect (walk (mode_class self)) []"
    by (simp add: build_namespace_def get_commandlets_collect)
  have "distinct (map command (collect (walk (mode_class self)) []))"
    by (rule collect_distinct) simp
  moreover have "command ` set (collect (walk (mode_class self)) []) = command ` set (walk (mode_class self))"
    by (simp add: collect_names)
  moreover have "find (\<lambda>d. command d = command c) (walk (mode_class self)) = Some c"
    if "c \<in> set (collect (walk (mode_class self)) [])" for c
    using collect_first [OF that] by simp
  ultimately show ?thesis
    unfolding ns by blast
qed

lemma Sub_namespace:
  "map description (get_commandlets Sub_class []) = [''Help of Sub'', []]"
  "map command (get_commandlets Sub_class []) = [''help'', ''exit'']"
  "map command (walk Sub_class) = [''help'', ''help'', ''exit'']"
  by (simp_all add: Sub_class_def Mode_class_def Command_init_def set_number_def Command_cls_init_def Command_call_def
      Commandlet_init_def get_command_def help_func_def exit_func_def object_class_def ping_func_def
      add_attr_def in_namespace_def Commandlet_eq_def Let_def own_commandlets_def)

text \<open>
  An instance of C7: the walk from \<open>Sub_class\<close> meets \<^verbatim>\<open>help\<close> twice; the namespace
  holds the one of \<open>Sub_class\<close>, met first, and \<^verbatim>\<open>exit\<close>.
\<close>

theorem build_namespace_first_per_name_witness:
  "map command (walk Sub_class) = [''help'', ''help'', ''exit'']
   \<and> map command (namespace (build_namespace (a_mode Sub_class))) = [''help'', ''exit'']
   \<and> map description (namespace (build_namespace (a_mode Sub_class))) = [''Help of Sub'', []]
   \<and> distinct (map command (namespace (build_namespace (a_mode Sub_class))))"
  using build_namespace_first_per_name [of "a_mode Sub_class"] Sub_namespace
  by (simp add: build_namespace_def a_mode_def)

subsection \<open>Lookup and the main loop\<close>

lemma lookup_find:
  "lookup ns command_input =
     (case find (\<lambda>c. command c = command_input) ns of
        None \<Rightarrow> Inl (IncorrectCommand command_input)
      | Some c \<Rightarrow> Inr c)"
  by (induction ns) simp_all

lemma lookup_not_found:
  "command_input \<notin> command ` set ns \<Longrightarrow> lookup ns command_input = Inl (IncorrectCommand command_input)"
  by (induction ns) auto

lemma split_space_nonempty: "split_space s \<noteq> []"
  by (induction s) (auto split: list.splits)

lemma get_user_input_result:
  assumes "split_space (strip line) = name # pieces"
  shows "\<exists>args. parse (join '' '' pieces) = Inr args
            \<and> get_user_input self line out = (Inr (name, args), out @ prompt self)"
proof -
  obtain args where "parse (join '' '' pieces) = Inr args"
    using parse_returns by blast
  then show ?thesis
    using assms by (simp add: get_user_input_def)
qed

lemma iteration_not_found:
  assumes "split_space (strip line) = name # pieces"
    and "name \<notin> command ` set (namespace self)"
  shows "iteration self line out = (Continue, print (''Incorrect command: '' @ name) (out @ prompt self))"
proof -
  obtain args where "get_user_input self line out = (Inr (name, args), out @ prompt self)"
    using get_user_input_result [OF assms(1)] by blast
  moreover have "lookup_command self name = Inl (IncorrectCommand name)"
    using assms(2) by (simp add: lookup_command_def lookup_not_found)
  ultimately show ?thesis
    by (simp add: iteration_def)
qed

text \<open>
  C8. A name that no entry of the namespace has makes \<^verbatim>\<open>lookup_command\<close> raise
  \<^verbatim>\<open>IncorrectCommand\<close> with exactly that name; otherwise the first entry with the name
  is returned. When the line typed starts with such a name, the round prints
  \<^verbatim>\<open>Incorrect command: \<close> and the name on one line after the prompt, and the loop goes
  on with the next line.
\<close>

theorem unknown_command_is_reported:
  "(command_input \<notin> command ` set (namespace self) \<longrightarrow>
      lookup_command self command_input = Inl (IncorrectCommand command_input))
   \<and>
   (find (\<lambda>c. command c = command_input) (namespace self) = Some c \<longrightarrow>
      lookup_command self command_input = Inr c)
   \<and>
   (split_space (strip line) = name # pieces \<and> name \<notin> command ` set (namespace self) \<longrightarrow>
      iteration self line out = (Continue, out @ prompt self @ ''Incorrect command: '' @ name @ [CHR 0x0A])
      \<and> Mode_loop self (line # rest) out =
          Mode_loop self rest (out @ prompt self @ ''Incorrect command: '' @ name @ [CHR 0x0A]))"
proof -
  have "lookup_command self command_input = Inl (IncorrectCommand command_input)"
    if "command_input \<notin> command ` set (namespace self)"
    using that by (simp add: lookup_command_def lookup_not_found)
  moreover have "lookup_command self command_input = Inr c"
    if "find (\<lambda>c. command c = command_input) (namespace self) = Some c"
    using that by (simp add: lookup_command_def lookup_find)
  moreover have "iteration self line out = (Continue, out @ prompt self @ ''Incorrect command: '' @ name @ [CHR 0x0A])
      \<and> Mode_loop self (line # rest) out =
          Mode_loop self rest (out @ prompt self @ ''Incorrect command: '' @ name @ [CHR 0x0A])"
    if "split_space (strip line) = name # pieces" "name \<notin> command ` set (namespace self)"
    using iteration_not_found [OF that] by (simp add: print_def)
  ultimately show ?thesis
    by blast
qed

lemma strip_whitespace:
  assumes "\<forall>c \<in> set line. isspace c"
  shows "strip line = []"
proof -
  have "x \<in> set (dropWhile isspace line) \<Longrightarrow> isspace x" for x
    using assms set_dropWhileD by fastforce
  then show ?thesis
    by (simp add: strip_def)
qed

lemma parse_empty: "parse [] = Inr []"
  by (simp add: parse_def ArgumentParser_call_def ArgumentParser_init_def strip_def
      process_token_def change_token_def flush_buffer_def)

lemma Mode_class_names:
  "map command (get_commandlets (Mode_class help_call) []) = [''help'', ''exit'']"
  by (simp add: Mode_class_def Command_init_def set_number_def Command_cls_init_def Command_call_def
      Commandlet_init_def get_command_def help_func_def exit_func_def object_class_def
      add_attr_def in_namespace_def Commandlet_eq_def Let_def)

text \<open>
  C10. In a namespace with no command named by the empty string, a line of whitespace
  only gives the empty command name and no arguments, \<^verbatim>\<open>lookup_command\<close> raises
  \<^verbatim>\<open>IncorrectCommand\<close>, the round prints \<^verbatim>\<open>Incorrect command: \<close> and the loop goes
  on. The namespace of the class \<^verbatim>\<open>Mode\<close> itself, \<^verbatim>\<open>help\<close> and \<^verbatim>\<open>exit\<close>, is such a
  namespace.
\<close>

theorem empty_line_is_reported:
  "('''' \<notin> command ` set (namespace self) \<and> (\<forall>c \<in> set line. isspace c) \<longrightarrow>
      get_user_input self line out = (Inr ('''', []), out @ prompt self)
      \<and> lookup_command self '''' = Inl (IncorrectCommand '''')
      \<and> iteration self line out = (Continue, out @ prompt self @ ''Incorrect command: '' @ [CHR 0x0A])
      \<and> Mode_loop self (line # rest) out =
          Mode_loop self rest (out @ prompt self @ ''Incorrect command: '' @ [CHR 0x0A]))
   \<and>
   (mode_class self = Mode_class help_call \<longrightarrow>
      map command (namespace (build_namespace self)) = [''help'', ''exit'']
      \<and> '''' \<notin> command ` set (namespace (build_namespace self)))"
proof -
  have 1: "get_user_input self line out = (Inr ('''', []), out @ prompt self)
      \<and> lookup_command self '''' = Inl (IncorrectCommand '''')
      \<and> iteration self line out = (Continue, out @ prompt self @ ''Incorrect command: '' @ [CHR 0x0A])
      \<and> Mode_loop self (line # rest) out =
          Mode_loop self rest (out @ prompt self @ ''Incorrect command: '' @ [CHR 0x0A])"
    if no: "'''' \<notin> command ` set (namespace self)" and ws: "\<forall>c \<in> set line. isspace c"
  proof -
    have st: "strip line = []"
      using ws by (rule strip_whitespace)
    have g: "get_user_input self line out = (Inr ('''', []), out @ prompt self)"
      by (simp add: get_user_input_def st parse_empty)
    have l: "lookup_command self '''' = Inl (IncorrectCommand '''')"
      using no by (simp add: lookup_command_def lookup_not_found)
    have i: "iteration self line out = (Continue, out @ prompt self @ ''Incorrect command: '' @ [CHR 0x0A])"
      by (simp add: iteration_def g l print_def)
    show ?thesis
      using g l i by simp
  qed
  have 2: "map command (namespace (build_namespace self)) = [''help'', ''exit'']
      \<and> '''' \<notin> command ` set (namespace (build_namespace self))"
    if "mode_class self = Mode_class help_call"
  proof -
    have "map command (namespace (build_namespace self)) = [''help'', ''exit'']"
      using that Mode_class_names [of help_call] by (simp add: build_namespace_def)
    moreover from this have "command ` set (namespace (build_namespace self)) = {''help'', ''exit''}"
      by (metis list.set_map list.simps(15) empty_set)
    ultimately show ?thesis by simp
  qed
  show ?thesis
    using 1 2 by blast
qed

lemma Mode_namespace:
  "map command (namespace (build_namespace (a_mode (Mode_class no_help)))) = [''help'', ''exit'']"
  using Mode_class_names [of no_help] by (simp add: build_namespace_def a_mode_def)

lemma prompt_a_mode: "prompt (build_namespace (a_mode cls)) = ''unnamed: ''"
  by (simp add: prompt_def build_namespace_def a_mode_def)

lemma exit_ends:
  "Mode_loop (build_namespace (a_mode (Mode_class no_help))) [''exit''] out = (None, out @ ''unnamed: '')"
  by (simp add: iteration_def get_user_input_def strip_def isspace_def prompt_def
      parse_empty lookup_command_def build_namespace_def a_mode_def
      Mode_class_def Command_init_def set_number_def Command_cls_init_def Command_call_def
      Commandlet_init_def get_command_def help_func_def exit_func_def object_class_def
      add_attr_def in_namespace_def Commandlet_eq_def Let_def Commandlet_call_def
      probe_empty Commandlet_cls_init_def)

text \<open>
  An instance of C10: a line of two spaces around a tab, then \<^verbatim>\<open>exit\<close>.
\<close>

theorem empty_line_is_reported_witness:
  "get_user_input (build_namespace (a_mode (Mode_class no_help))) [CHR 0x20, CHR 0x09, CHR 0x20] [] =
       (Inr ([], []), ''unnamed: '')
   \<and> Mode_loop (build_namespace (a_mode (Mode_class no_help))) [[CHR 0x20, CHR 0x09, CHR 0x20], ''exit''] [] =
       (None, ''unnamed: Incorrect command: '' @ [CHR 0x0A] @ ''unnamed: '')"
proof -
  let ?m = "build_namespace (a_mode (Mode_class no_help))"
  have cls: "mode_class ?m = Mode_class no_help"
    by (simp add: build_namespace_def a_mode_def)
  have idem: "build_namespace ?m = ?m"
    by (simp add: build_namespace_def a_mode_def)
  have no: "'''' \<notin> command ` set (namespace ?m)"
    using empty_line_is_reported [of ?m _ _ _ no_help] cls idem by simp
  have ws: "\<forall>c \<in> set [CHR 0x20, CHR 0x09, CHR 0x20]. isspace c"
    by (simp add: isspace_def)
  have 1: "get_user_input ?m [CHR 0x20, CHR 0x09, CHR 0x20] [] = (Inr ([], []), [] @ prompt ?m)"
    and 2: "Mode_loop ?m [[CHR 0x20, CHR 0x09, CHR 0x20], ''exit''] [] =
      Mode_loop ?m [''exit''] ([] @ prompt ?m @ ''Incorrect command: '' @ [CHR 0x0A])"
    using empty_line_is_reported [of ?m "[CHR 0x20, CHR 0x09, CHR 0x20]" "[]" "[''exit'']"] no ws
    by blast+
  have 3: "Mode_loop ?m [[CHR 0x20, CHR 0x09, CHR 0x20], ''exit''] [] =
      (None, ([] @ prompt ?m @ ''Incorrect command: '' @ [CHR 0x0A]) @ ''unnamed: '')"
    unfolding 2 by (rule exit_ends)
  show ?thesis
    using 1 3 by (simp add: prompt_a_mode del: Mode_loop.simps)
qed

text \<open>
  An instance of C8: the lines \<^verbatim>\<open>foo bar\<close> and \<^verbatim>\<open>exit\<close> typed into a \<^verbatim>\<open>Mode\<close>.
\<close>

theorem unknown_command_is_reported_witness:
  "lookup_command (build_namespace (a_mode (Mode_class no_help))) ''foo'' = Inl (IncorrectCommand ''foo'')
   \<and> Mode_loop (build_namespace (a_mode (Mode_class no_help))) [''foo bar'', ''exit''] [] =
       (None, ''unnamed: Incorrect command: foo'' @ [CHR 0x0A] @ ''unnamed: '')"
proof -
  let ?m = "build_namespace (a_mode (Mode_class no_help))"
  have names: "command ` set (namespace ?m) = {''help'', ''exit''}"
    using Mode_namespace by (metis list.set_map list.simps(15) empty_set)
  have no: "''foo'' \<notin> command ` set (namespace ?m)"
    unfolding names by simp
  have sp: "split_space (strip ''foo bar'') = [''foo'', ''bar'']"
    by (simp add: strip_def isspace_def)
  have 1: "lookup_command ?m ''foo'' = Inl (IncorrectCommand ''foo'')"
    using unknown_command_is_reported [of "''foo''" ?m] no by simp
  have 2: "Mode_loop ?m [''foo bar'', ''exit''] [] =
      Mode_loop ?m [''exit''] ([] @ prompt ?m @ ''Incorrect command: '' @ ''foo'' @ [CHR 0x0A])"
    using unknown_command_is_reported [of _ ?m _ "''foo bar''" "''foo''" "[''bar'']" "[]" "[''exit'']"] no sp
    by blast
  have 3: "Mode_loop ?m [''foo bar'', ''exit''] [] =
      (None, ([] @ prompt ?m @ ''Incorrect command: '' @ ''foo'' @ [CHR 0x0A]) @ ''unnamed: '')"
    unfolding 2 by (rule exit_ends)
  show ?thesis
    using 1 3 by (simp add: prompt_a_mode del: Mode_loop.simps)
qed

end
